theory Spec2Isabelle
  imports Main "HOL-Library.Word"
begin

unbundle bit_operations_syntax

section \<open>Machine types and register bits\<close>

type_synonym u8 = "8 word"
type_synonym u16 = "16 word"
type_synonym u32 = "32 word"

text \<open>
  Bit positions of the AVR USART registers, as listed in the register-bit block of
  \<^verbatim>\<open>src/avr/usart.cpp\<close>. \<open>SREG_I\<close> is the global interrupt flag of the AVR status
  register.
\<close>

definition RXC :: nat where "RXC = 7"
definition TXC :: nat where "TXC = 6"
definition UDRE :: nat where "UDRE = 5"
definition FE :: nat where "FE = 4"
definition DOR :: nat where "DOR = 3"
definition UPE :: nat where "UPE = 2"
definition U2X :: nat where "U2X = 1"

definition RXCIE :: nat where "RXCIE = 7"
definition TXCIE :: nat where "TXCIE = 6"
definition UDRIE :: nat where "UDRIE = 5"
definition RXEN :: nat where "RXEN = 4"
definition TXEN :: nat where "TXEN = 3"

definition SREG_I :: nat where "SREG_I = 7"

text \<open>The bit macros \<open>set_bit(reg, bit)\<close>, \<open>clear_bit(reg, bit)\<close>, \<open>bit_is_set\<close> and
  \<open>bit_is_clear\<close> on an 8-bit register cell.\<close>

definition set_bit_reg :: "u8 \<Rightarrow> nat \<Rightarrow> u8" where
  "set_bit_reg r b = r OR push_bit b 1"

definition clear_bit_reg :: "u8 \<Rightarrow> nat \<Rightarrow> u8" where
  "clear_bit_reg r b = r AND NOT (push_bit b 1)"

definition bit_is_set :: "u8 \<Rightarrow> nat \<Rightarrow> bool" where
  "bit_is_set r b = (r AND push_bit b 1 \<noteq> 0)"

definition bit_is_clear :: "u8 \<Rightarrow> nat \<Rightarrow> bool" where
  "bit_is_clear r b = (r AND push_bit b 1 = 0)"

section \<open>Build-time configuration\<close>

text \<open>
  The header \<^verbatim>\<open>devices/defines.hpp\<close> is not part of the sources at hand, so the
  build-time macros that \<^verbatim>\<open>usart.cpp\<close> reads are parameters of the model:
  the two ring capacities, the polling granularities, the error masks, the CPU clock,
  the 2X switch, the per-port baud rates, the per-port value of \<open>BTR_USART_CONFIG(...)\<close>
  and the default of the \<open>timeout\<close> parameter of \<open>send(char, bool, uint32_t)\<close>.
\<close>

record config =
  BTR_USART_RX_BUFF_SIZE :: u16
  BTR_USART_TX_BUFF_SIZE :: u16
  BTR_USART_RX_DELAY :: u32
  BTR_USART_TX_DELAY :: u32
  BTR_USART_OVERFLOW_ERR :: u16
  BTR_USART_TIMEDOUT_ERR :: u16
  F_CPU :: u32
  BTR_USART_USE_2X :: bool
  BTR_USART_BAUD :: "u8 \<Rightarrow> u32"
  BTR_USART_CONFIG :: "u8 \<Rightarrow> u8"
  send_timeout_default :: u32

text \<open>
  Modelled from the spec: the value of the macro \<open>BTR_USART_NO_DATA\<close>, whose definition
  is in the absent \<^verbatim>\<open>defines.hpp\<close>. The spec describes it as the distinguished pattern
  with all ones in the high byte of the 16-bit receive status.
\<close>

definition BTR_USART_NO_DATA :: u16 where
  "BTR_USART_NO_DATA = 0xFF00"

text \<open>\<open>BAUD_CALC(BAUD)\<close>, evaluated in \<open>unsigned long\<close> (32 bits).\<close>

definition BAUD_CALC :: "config \<Rightarrow> u32 \<Rightarrow> u32" where
  "BAUD_CALC c baud =
     (if BTR_USART_USE_2X c
      then (F_CPU c + 4 * baud) div (8 * baud) - 1
      else (F_CPU c + 8 * baud) div (16 * baud) - 1)"

section \<open>The USART port\<close>

text \<open>
  One record holds the object's fields and the register cells its pointers designate.
  The data register is two cells behind one address: \<open>udr_rx\<close> is what a read of
  \<open>*udr_\<close> yields, \<open>udr_tx\<close> is the sequence of bytes written to \<open>*udr_\<close>, oldest
  first. \<open>sreg\<close> is the CPU status register, \<open>led\<close> the pin that \<open>LED_TOGGLE()\<close> flips.
  The indices are \<open>uint16_t\<close>; \<open>unsigned int\<close> has 16 bits on AVR, so index
  arithmetic is arithmetic on \<open>16 word\<close>. The two arrays are lists of the ring
  capacities. An access beyond an array is undefined in C++; on a list such a read is
  unspecified and such a store has no effect, so the properties below are stated for
  indices below the capacity.
\<close>

record usart =
  usart_id :: u8
  ubrr_h :: u8
  ubrr_l :: u8
  ucsr_a :: u8
  ucsr_b :: u8
  ucsr_c :: u8
  udr_rx :: u8
  udr_tx :: "u8 list"
  sreg :: u8
  led :: bool
  rx_error :: u8
  rx_head :: u16
  rx_tail :: u16
  tx_head :: u16
  tx_tail :: u16
  rx_buff :: "u8 list"
  tx_buff :: "u8 list"

text \<open>The constructor: indices and latch zero, both arrays value-initialised, the four
  enable bits of UCSRnB cleared. The contents of UCSRnA, UCSRnB, UCSRnC and SREG at
  that moment are the hardware's and are arguments here; the baud registers and the
  receive data register start at their reset value 0, nothing has been written to the
  data register yet and the LED is off.\<close>

definition Usart :: "config \<Rightarrow> u8 \<Rightarrow> u8 \<Rightarrow> u8 \<Rightarrow> u8 \<Rightarrow> u8 \<Rightarrow> usart" where
  "Usart c i a b cc sr =
     \<lparr> usart_id = i, ubrr_h = 0, ubrr_l = 0, ucsr_a = a,
       ucsr_b = clear_bit_reg (clear_bit_reg (clear_bit_reg (clear_bit_reg b TXEN) RXEN) RXCIE) UDRIE,
       ucsr_c = cc, udr_rx = 0, udr_tx = [], sreg = sr, led = False,
       rx_error = 0, rx_head = 0, rx_tail = 0, tx_head = 0, tx_tail = 0,
       rx_buff = replicate (unat (BTR_USART_RX_BUFF_SIZE c)) 0,
       tx_buff = replicate (unat (BTR_USART_TX_BUFF_SIZE c)) 0 \<rparr>"

definition isOpen :: "usart \<Rightarrow> bool" where
  "isOpen s = (bit_is_set (ucsr_b s) TXEN \<or> bit_is_set (ucsr_b s) RXEN)"

definition valid_id :: "u8 \<Rightarrow> bool" where
  "valid_id i = (i = 1 \<or> i = 2 \<or> i = 3 \<or> i = 4)"

definition open_port :: "config \<Rightarrow> usart \<Rightarrow> int \<times> usart" where
  "open_port c s =
     (if isOpen s then (0, s)
      else if valid_id (usart_id s) then
        (let baud = (ucast (BAUD_CALC c (BTR_USART_BAUD c (usart_id s))) :: u16);
             cfg = BTR_USART_CONFIG c (usart_id s);
             s1 = (if BTR_USART_USE_2X c then s\<lparr>ucsr_a := push_bit U2X 1\<rparr> else s);
             s2 = s1\<lparr>ubrr_h := ucast (drop_bit 8 baud), ubrr_l := ucast baud, ucsr_c := cfg\<rparr>;
             s3 = s2\<lparr>ucsr_b := set_bit_reg (ucsr_b s2) TXEN\<rparr>;
             s4 = s3\<lparr>ucsr_b := set_bit_reg (ucsr_b s3) RXEN\<rparr>;
             s5 = s4\<lparr>ucsr_b := set_bit_reg (ucsr_b s4) RXCIE\<rparr>;
             s6 = s5\<lparr>ucsr_b := clear_bit_reg (ucsr_b s5) UDRIE\<rparr>
         in (0, s6))
      else (-1, s))"

subsection \<open>Interrupt handlers\<close>

definition onRecv :: "config \<Rightarrow> usart \<Rightarrow> usart" where
  "onRecv c s =
     (let s1 = s\<lparr>rx_error := ucsr_a s AND (push_bit FE 1 OR push_bit DOR 1 OR push_bit UPE 1)\<rparr>;
          head_next = (rx_head s1 + 1) mod BTR_USART_RX_BUFF_SIZE c;
          s2 = (if head_next \<noteq> rx_tail s1
                then s1\<lparr>rx_buff := (rx_buff s1)[unat (rx_head s1) := udr_rx s1],
                        rx_head := head_next\<rparr>
                else s1\<lparr>rx_error := rx_error s1 OR ucast (drop_bit 8 (BTR_USART_OVERFLOW_ERR c))\<rparr>)
      in s2\<lparr>led := \<not> led s2\<rparr>)"

definition onSend :: "config \<Rightarrow> usart \<Rightarrow> usart" where
  "onSend c s =
     (let ch = tx_buff s ! unat (tx_tail s);
          s1 = s\<lparr>tx_tail := (tx_tail s + 1) mod BTR_USART_TX_BUFF_SIZE c\<rparr>;
          s2 = s1\<lparr>udr_tx := udr_tx s1 @ [ch]\<rparr>
      in if tx_head s2 = tx_tail s2
         then s2\<lparr>ucsr_b := clear_bit_reg (ucsr_b s2) UDRIE\<rparr>
         else s2)"

subsection \<open>Non-blocking operations\<close>


text \<open>\<open>recv()\<close> without arguments: the non-blocking pop.\<close>

definition recv :: "config \<Rightarrow> usart \<Rightarrow> u16 \<times> usart" where
  "recv c s =
     (if rx_head s \<noteq> rx_tail s then
        (let ch = rx_buff s ! unat (rx_tail s);
             s1 = s\<lparr>rx_tail := (rx_tail s + 1) mod BTR_USART_RX_BUFF_SIZE c\<rparr>;
             rc = (push_bit 8 (ucast (rx_error s1)) :: u16);
             s2 = s1\<lparr>rx_error := 0\<rparr>
         in (rc + ucast ch, s2))
      else (BTR_USART_NO_DATA, s))"

subsection \<open>Hardware and interrupts between two polls\<close>

text \<open>
  The blocking operations spin on volatile cells that only the hardware and the two
  interrupt service routines change. A schedule is the list of things that happen
  while the mainline spins, one entry per round of a busy-wait loop:
  nothing (\<open>Quiet\<close>), the hardware rewriting the status register UCSRnA
  (\<open>Status\<close>), a received frame latching its status and data and raising the
  receive-complete interrupt (\<open>RxComplete\<close>), or the data-register-empty interrupt
  (\<open>UdreIrq\<close>). An interrupt runs its routine (\<open>ISR(USARTn_RX_vect)\<close> calls
  \<open>onRecv\<close>, \<open>ISR(USARTn_UDRE_vect)\<close> calls \<open>onSend\<close>) only when the global
  interrupt flag and the interrupt's enable bit are set.
  An entry takes effect at the end of a round that found the loop's condition still
  true (during the \<open>_delay_ms\<close> of the round, when it has one), before the condition
  is read again. A loop that finds its schedule used up while it still has to go
  round has not returned: the result is \<open>None\<close>.
\<close>

datatype hw_event = Quiet | Status u8 | RxComplete u8 u8 | UdreIrq

fun hw_step :: "config \<Rightarrow> hw_event \<Rightarrow> usart \<Rightarrow> usart" where
  "hw_step c Quiet s = s"
| "hw_step c (Status a) s = s\<lparr>ucsr_a := a\<rparr>"
| "hw_step c (RxComplete a d) s =
     (let s1 = s\<lparr>ucsr_a := a, udr_rx := d\<rparr>
      in if bit_is_set (sreg s1) SREG_I \<and> bit_is_set (ucsr_b s1) RXCIE
         then onRecv c s1 else s1)"
| "hw_step c UdreIrq s =
     (if bit_is_set (sreg s) SREG_I \<and> bit_is_set (ucsr_b s) UDRIE \<and> bit_is_set (ucsr_a s) UDRE
      then onSend c s else s)"

subsection \<open>Blocking operations\<close>

text \<open>\<open>flush\<close>: the loop test and the loop body, then the loop. The result is the return
  value, the rest of the schedule and the state.\<close>

definition flush_pending :: "usart \<Rightarrow> bool" where
  "flush_pending s = (bit_is_set (ucsr_b s) UDRIE \<or> bit_is_clear (ucsr_a s) TXC)"

definition flush_body :: "config \<Rightarrow> usart \<Rightarrow> usart" where
  "flush_body c s =
     (if bit_is_clear (sreg s) SREG_I \<and> bit_is_set (ucsr_b s) UDRIE
      then (if bit_is_set (ucsr_a s) UDRE then onSend c s else s)
      else s)"

fun flush :: "config \<Rightarrow> hw_event list \<Rightarrow> usart \<Rightarrow> (int \<times> hw_event list \<times> usart) option" where
  "flush c [] s = (if flush_pending s then None else Some (0, [], s))"
| "flush c (e # E) s =
     (if flush_pending s then flush c E (hw_step c e (flush_body c s))
      else Some (0, e # E, s))"

text \<open>The wait loop of \<open>send(char, bool, uint32_t)\<close>. The flag of the result tells
  whether the loop was left with room in the ring (\<open>True\<close>) or through the
  \<open>return -1\<close> of the timeout (\<open>False\<close>). \<open>delays\<close> is a \<open>uint32_t\<close>.\<close>

fun send_wait ::
  "config \<Rightarrow> u16 \<Rightarrow> u32 \<Rightarrow> u32 \<Rightarrow> hw_event list \<Rightarrow> usart \<Rightarrow> (bool \<times> hw_event list \<times> usart) option"
where
  "send_wait c head_next timeout delays [] s =
     (if head_next = tx_tail s then None else Some (True, [], s))"
| "send_wait c head_next timeout delays (e # E) s =
     (if head_next = tx_tail s then
        (if bit_is_clear (sreg s) SREG_I \<and> bit_is_set (ucsr_a s) UDRE
         then send_wait c head_next timeout delays E (hw_step c e (onSend c s))
         else if timeout > 0 then
           (let s1 = hw_step c e s;
                delays1 = delays + BTR_USART_TX_DELAY c
            in if delays1 \<ge> timeout then Some (False, E, s1)
               else send_wait c head_next timeout delays1 E s1)
         else send_wait c head_next timeout delays E (hw_step c e s))
      else Some (True, e # E, s))"

text \<open>The statements of \<open>send\<close> after the wait loop: the store at slot \<open>head_next\<close>
  and the atomic block that publishes the new head and enables the transmit-empty
  interrupt.\<close>

definition send_store :: "u16 \<Rightarrow> u8 \<Rightarrow> usart \<Rightarrow> usart" where
  "send_store head_next ch s =
     (let s1 = s\<lparr>tx_buff := (tx_buff s)[unat head_next := ch]\<rparr>;
          s2 = s1\<lparr>tx_head := head_next\<rparr>
      in s2\<lparr>ucsr_b := set_bit_reg (ucsr_b s2) UDRIE\<rparr>)"

definition send :: "config \<Rightarrow> u8 \<Rightarrow> bool \<Rightarrow> u32 \<Rightarrow> hw_event list \<Rightarrow> usart \<Rightarrow> (int \<times> hw_event list \<times> usart) option" where
  "send c ch drain timeout E s =
     (let head_next = (tx_head s + 1) mod BTR_USART_TX_BUFF_SIZE c
      in case send_wait c head_next timeout 0 E s of
           None \<Rightarrow> None
         | Some (room, E1, s1) \<Rightarrow>
             if \<not> room then Some (-1, E1, s1)
             else
               (let s2 = send_store head_next ch s1
                in if drain then flush c E1 s2 else Some (0, E1, s2)))"

text \<open>\<open>send(const char*, uint32_t, bool)\<close>: the loop over the first \<open>bytes\<close> characters,
  each sent with \<open>drain = false\<close> and the default timeout, then the optional flush.\<close>

fun send_loop :: "config \<Rightarrow> u8 list \<Rightarrow> hw_event list \<Rightarrow> usart \<Rightarrow> (int \<times> hw_event list \<times> usart) option" where
  "send_loop c [] E s = Some (0, E, s)"
| "send_loop c (ch # cs) E s =
     (case send c ch False (send_timeout_default c) E s of
        None \<Rightarrow> None
      | Some (rc, E1, s1) \<Rightarrow> if rc \<noteq> 0 then Some (rc, E1, s1) else send_loop c cs E1 s1)"

definition send_buff :: "config \<Rightarrow> u8 list \<Rightarrow> u32 \<Rightarrow> bool \<Rightarrow> hw_event list \<Rightarrow> usart \<Rightarrow> (int \<times> hw_event list \<times> usart) option" where
  "send_buff c buff bytes drain E s =
     (case send_loop c (take (unat bytes) buff) E s of
        None \<Rightarrow> None
      | Some (rc, E1, s1) \<Rightarrow>
          if rc = 0 \<and> drain then
            (case flush c E1 s1 of None \<Rightarrow> None | Some (r, E2, s2) \<Rightarrow> Some (rc, E2, s2))
          else Some (rc, E1, s1))"


text \<open>
  \<open>recv(char*, uint16_t, uint32_t)\<close>. The caller's buffer is a list, \<open>pos\<close> the offset
  the pointer \<open>buff\<close> has reached, \<open>bytes\<close> the count still wanted. The caller owes a
  buffer of at least \<open>bytes\<close> cells: a store beyond it is undefined in C++ and leaves
  the list as it is here. The result is the status, the buffer, the rest of the
  schedule and the state.
\<close>

fun recv_wait ::
  "config \<Rightarrow> u32 \<Rightarrow> u32 \<Rightarrow> u16 \<Rightarrow> u8 list \<Rightarrow> nat \<Rightarrow> nat \<Rightarrow> hw_event list \<Rightarrow> usart
     \<Rightarrow> (u16 \<times> u8 list \<times> hw_event list \<times> usart) option"
where
  "recv_wait c timeout delays rc buff pos 0 E s = Some (rc, buff, E, s)"
| "recv_wait c timeout delays rc buff pos (Suc n) [] s =
     (let (ch, s1) = recv c s
      in if BTR_USART_NO_DATA AND ch \<noteq> 0 then None
         else recv_wait c timeout delays (rc OR (ch AND 0xFF00)) (buff[pos := ucast ch]) (Suc pos) n [] s1)"
| "recv_wait c timeout delays rc buff pos (Suc n) (e # E) s =
     (let (ch, s1) = recv c s
      in if BTR_USART_NO_DATA AND ch \<noteq> 0 then
           (if timeout > 0 then
              (let s2 = hw_step c e s1;
                   delays1 = delays + BTR_USART_RX_DELAY c
               in if delays1 \<ge> timeout
                  then Some (rc OR BTR_USART_TIMEDOUT_ERR c, buff, E, s2)
                  else recv_wait c timeout delays1 rc buff pos (Suc n) E s2)
            else recv_wait c timeout delays rc buff pos (Suc n) E (hw_step c e s1))
         else recv_wait c timeout delays (rc OR (ch AND 0xFF00)) (buff[pos := ucast ch]) (Suc pos) n (e # E) s1)"

definition recv_buff ::
  "config \<Rightarrow> u8 list \<Rightarrow> u16 \<Rightarrow> u32 \<Rightarrow> hw_event list \<Rightarrow> usart
     \<Rightarrow> (u16 \<times> u8 list \<times> hw_event list \<times> usart) option" where
  "recv_buff c buff bytes timeout E s = recv_wait c timeout 0 0 buff 0 (unat bytes) E s"


section \<open>The typed I2C wrappers\<close>

text \<open>
  \<^verbatim>\<open>include/devices/i2c.hpp\<close> defines \<open>read<T>\<close> and \<open>write<T>\<close> inline; the
  byte-buffer operations they delegate to, \<open>is_ok\<close> and the codec helpers are declared
  or defined elsewhere. The device object has the three fields of the class; \<open>i2c_buff\<close>
  is the scratch array \<open>buff_[sizeof(uint64_t)]\<close>.
\<close>

record i2c =
  dev_id :: u32
  i2c_buff :: "u8 list"
  opened :: bool

text \<open>
  What the header leaves to the platform and to code outside it, as parameters:
  the width of \<open>int\<close> (16 bits on AVR, 32 on STM32: the class serves both), the host
  byte order that \<open>ValueCodec::isLittleEndian()\<close> reports, the predicate \<open>is_ok\<close>,
  and the two byte-buffer operations. \<open>read_bytes addr reg count d\<close> stands for
  \<open>read(addr, reg, buff, count)\<close>: it yields the status, the bytes it stores from the
  start of the buffer it is given, and the device afterwards. \<open>write_bytes addr reg
  bytes count d\<close> stands for \<open>write(addr, reg, buff, count)\<close> with the \<open>count\<close> bytes
  \<open>buff\<close> points to.
\<close>

record i2c_platform =
  int_bits :: nat
  isLittleEndian :: bool
  is_ok :: "u32 \<Rightarrow> bool"
  read_bytes :: "u8 \<Rightarrow> u8 \<Rightarrow> nat \<Rightarrow> i2c \<Rightarrow> u32 \<times> u8 list \<times> i2c"
  write_bytes :: "u8 \<Rightarrow> u8 \<Rightarrow> u8 list \<Rightarrow> nat \<Rightarrow> i2c \<Rightarrow> u32 \<times> i2c"

text \<open>The conversions around \<open>int rc = I2C::read(...)\<close>: a \<open>uint32_t\<close> stored in an
  \<open>int\<close> of \<open>w\<close> bits keeps its low \<open>w\<close> bits, read as two's complement, and
  \<open>return rc\<close> converts back to \<open>uint32_t\<close>.\<close>

definition to_int :: "nat \<Rightarrow> u32 \<Rightarrow> int" where
  "to_int w x = signed_take_bit (w - 1) (uint x)"

definition to_uint32 :: "int \<Rightarrow> u32" where
  "to_uint32 i = word_of_int i"

text \<open>
  A value of a fixed-width integer type of \<open>n\<close> bytes is the number its \<open>n\<close> bytes
  spell. \<open>be_bytes n v\<close> are its bytes with the most significant first, \<open>be_value\<close>
  reads such bytes back.
\<close>

fun be_bytes :: "nat \<Rightarrow> nat \<Rightarrow> u8 list" where
  "be_bytes 0 v = []"
| "be_bytes (Suc n) v = be_bytes n (v div 256) @ [of_nat (v mod 256)]"

definition be_value :: "u8 list \<Rightarrow> nat" where
  "be_value bs = foldl (\<lambda>a b. a * 256 + unat b) 0 bs"

text \<open>The bytes of the object \<open>value\<close> as they lie in memory, lowest address first, on
  a little-endian or a big-endian host: what \<open>reinterpret_cast<uint8_t*>(&value)\<close>
  points to.\<close>

definition object_bytes :: "bool \<Rightarrow> nat \<Rightarrow> nat \<Rightarrow> u8 list" where
  "object_bytes le n v = (if le then rev (be_bytes n v) else be_bytes n v)"

text \<open>Modelled from the spec: \<open>ValueCodec::swap\<close> of the external utility library, the
  endianness swap of an object: it reverses the object's bytes.\<close>

definition swap :: "u8 list \<Rightarrow> u8 list" where
  "swap obj = rev obj"

text \<open>Modelled from the spec: \<open>ValueCodec::decodeFixedInt(buff, val, bytes, msb)\<close> of the
  external utility library, the decoder from wire to host order: the value that the
  first \<open>bytes\<close> bytes of \<open>buff\<close> spell, most significant byte first when \<open>msb\<close> is
  set.\<close>

definition decodeFixedInt :: "u8 list \<Rightarrow> nat \<Rightarrow> bool \<Rightarrow> nat" where
  "decodeFixedInt bs n msb = (if msb then be_value (take n bs) else be_value (rev (take n bs)))"

text \<open>\<open>read<T>\<close> with \<open>n = sizeof(T)\<close>: the arguments are the address, the register
  and the current value of \<open>*val\<close>; the result is the returned status, the value of
  \<open>*val\<close> afterwards and the device. The bytes that the buffer read stores land in
  the scratch buffer.\<close>

definition read_T :: "i2c_platform \<Rightarrow> nat \<Rightarrow> u8 \<Rightarrow> u8 \<Rightarrow> nat \<Rightarrow> i2c \<Rightarrow> u32 \<times> nat \<times> i2c" where
  "read_T p n addr reg val d =
     (let (st, bs, d1) = read_bytes p addr reg n d;
          d2 = d1\<lparr>i2c_buff := take n bs @ drop (length (take n bs)) (i2c_buff d1)\<rparr>;
          rc = to_int (int_bits p) st;
          val1 = (if is_ok p (to_uint32 rc) then decodeFixedInt (i2c_buff d2) n True else val)
      in (to_uint32 rc, val1, d2))"

text \<open>\<open>write<T>\<close> with \<open>n = sizeof(T)\<close>: \<open>value\<close> is the by-value parameter as it lies
  in memory, swapped in place on a little-endian host when it has more than one
  byte, and handed to the buffer write.\<close>

definition write_T :: "i2c_platform \<Rightarrow> nat \<Rightarrow> u8 \<Rightarrow> u8 \<Rightarrow> nat \<Rightarrow> i2c \<Rightarrow> u32 \<times> i2c" where
  "write_T p n addr reg v d =
     (let value = object_bytes (isLittleEndian p) n v;
          value1 = (if n > 1 \<and> isLittleEndian p then swap value else value)
      in write_bytes p addr reg value1 n d)"

section \<open>Measures and sample inputs\<close>

text \<open>The state after the hardware alone has gone through a schedule.\<close>

fun hw_run :: "config \<Rightarrow> hw_event list \<Rightarrow> usart \<Rightarrow> usart" where
  "hw_run c [] s = s"
| "hw_run c (e # E) s = hw_run c E (hw_step c e s)"

text \<open>No room frees in the transmit ring during a schedule: before each of its events
  the slot \<open>head_next\<close> is still the tail, and the mainline cannot pump the ring itself
  (interrupts are enabled, or the data register is not empty).\<close>

fun tx_stalled :: "config \<Rightarrow> u16 \<Rightarrow> hw_event list \<Rightarrow> usart \<Rightarrow> bool" where
  "tx_stalled c head_next [] s = True"
| "tx_stalled c head_next (e # E) s =
     (head_next = tx_tail s \<and>
      \<not> (bit_is_clear (sreg s) SREG_I \<and> bit_is_set (ucsr_a s) UDRE) \<and>
      tx_stalled c head_next E (hw_step c e s))"


text \<open>The value of the \<open>uint32_t\<close> counter \<open>delays\<close> after \<open>n\<close> rounds of waiting with
  the given step: it is only advanced when \<open>timeout > 0\<close>.\<close>

definition delays_after :: "u32 \<Rightarrow> u32 \<Rightarrow> u32 \<Rightarrow> nat \<Rightarrow> u32" where
  "delays_after timeout step delays n = (if timeout > 0 then delays + of_nat n * step else delays)"


text \<open>The number of bytes a ring of capacity \<open>N\<close> holds, by the formula
  \<open>(N + head - tail) mod N\<close> on natural numbers.\<close>

definition ring_count :: "u16 \<Rightarrow> u16 \<Rightarrow> u16 \<Rightarrow> nat" where
  "ring_count N h t = (unat N + unat h - unat t) mod unat N"






text \<open>A sample build (rings of eight slots, 16 MHz clock, 115200 baud, 8N1) and port 1
  as its constructor leaves it, with the reset values of the registers (UDRE set) and
  global interrupts enabled.\<close>

definition cfg8 :: config where
  "cfg8 = \<lparr> BTR_USART_RX_BUFF_SIZE = 8, BTR_USART_TX_BUFF_SIZE = 8,
            BTR_USART_RX_DELAY = 1, BTR_USART_TX_DELAY = 1,
            BTR_USART_OVERFLOW_ERR = 0x0200, BTR_USART_TIMEDOUT_ERR = 0x0100,
            F_CPU = 16000000, BTR_USART_USE_2X = False,
            BTR_USART_BAUD = (\<lambda>i. 115200), BTR_USART_CONFIG = (\<lambda>i. 6),
            send_timeout_default = 0 \<rparr>"

definition port0 :: usart where
  "port0 = Usart cfg8 1 0x20 0 6 0x80"


text \<open>Port 1 opened and seven bytes queued with nothing sent yet: the transmit ring
  is full.\<close>

definition port_full :: usart where
  "port_full =
     (case send_loop cfg8 [1, 2, 3, 4, 5, 6, 7] [] (snd (open_port cfg8 port0)) of
        Some (rc, E, s) \<Rightarrow> s | None \<Rightarrow> port0)"

text \<open>The five characters of \<open>"hello"\<close>.\<close>

definition hello :: "u8 list" where
  "hello = [0x68, 0x65, 0x6C, 0x6C, 0x6F]"

text \<open>The peer of the echo scenario: a second port of the same build, opened, that
  receives the frames on the wire one by one without errors and then asks for five
  bytes with a timeout of 200.\<close>

definition peer_recv :: "u8 list \<Rightarrow> (u16 \<times> u8 list \<times> hw_event list \<times> usart) option" where
  "peer_recv wire =
     recv_buff cfg8 [0, 0, 0, 0, 0] 5 200 []
       (hw_run cfg8 (map (RxComplete 0x20) wire) (snd (open_port cfg8 port0)))"

text \<open>
  Sample I2C platforms. Modelled from the spec: \<open>is_ok\<close> of the absent
  \<^verbatim>\<open>defines.hpp\<close>; the status classification is in bits 16-31 of the 32-bit result
  (as the comment on \<open>scan()\<close> in the header says too) and \<open>Ok\<close> is the
  classification zero. \<open>nack_read\<close> is a slave that does not acknowledge: an error
  status and no byte stored. \<open>sensor_read\<close> is a slave whose register holds
  \<open>0x1234\<close>, sent most significant byte first. \<open>null_write\<close> accepts every write and
  leaves the device object alone.
\<close>

definition status_ok :: "u32 \<Rightarrow> bool" where
  "status_ok st = (st AND 0xFFFF0000 = 0)"

definition nack_read :: "u8 \<Rightarrow> u8 \<Rightarrow> nat \<Rightarrow> i2c \<Rightarrow> u32 \<times> u8 list \<times> i2c" where
  "nack_read addr reg n d = (0x00010000, [], d)"

definition sensor_read :: "u8 \<Rightarrow> u8 \<Rightarrow> nat \<Rightarrow> i2c \<Rightarrow> u32 \<times> u8 list \<times> i2c" where
  "sensor_read addr reg n d = (0, be_bytes n 0x1234, d)"

definition null_write :: "u8 \<Rightarrow> u8 \<Rightarrow> u8 list \<Rightarrow> nat \<Rightarrow> i2c \<Rightarrow> u32 \<times> i2c" where
  "null_write addr reg bs n d = (0, d)"

definition avr16 :: i2c_platform where
  "avr16 = \<lparr> int_bits = 16, isLittleEndian = True, is_ok = status_ok,
             read_bytes = nack_read, write_bytes = null_write \<rparr>"

definition stm32 :: i2c_platform where
  "stm32 = \<lparr> int_bits = 32, isLittleEndian = True, is_ok = status_ok,
             read_bytes = sensor_read, write_bytes = null_write \<rparr>"

definition dev0 :: i2c where
  "dev0 = \<lparr> dev_id = 0, i2c_buff = [0xAB, 0, 0, 0, 0, 0, 0, 0], opened = True \<rparr>"

section \<open>Properties\<close>

subsection \<open>Bits, words and ring arithmetic\<close>

lemmas bit_defs =
  RXC_def TXC_def UDRE_def FE_def DOR_def UPE_def U2X_def
  RXCIE_def TXCIE_def UDRIE_def RXEN_def TXEN_def SREG_I_def

lemma replicate_8: "replicate 8 x = [x, x, x, x, x, x, x, x]"
  by (simp add: numeral_eq_Suc)

lemmas eval_defs =
  cfg8_def port0_def Usart_def bit_defs set_bit_reg_def clear_bit_reg_def
  bit_is_set_def bit_is_clear_def Let_def BTR_USART_NO_DATA_def replicate_8

lemma bit_is_set_iff: "bit_is_set r b \<longleftrightarrow> bit r b"
  unfolding bit_is_set_def
  by (metis and_exp_eq_0_iff_not_bit push_bit_of_1)

lemma bit_is_clear_iff: "bit_is_clear r b \<longleftrightarrow> \<not> bit r b"
  unfolding bit_is_clear_def
  by (metis and_exp_eq_0_iff_not_bit push_bit_of_1)

lemma bit_set_bit_reg: "bit (set_bit_reg r b) n \<longleftrightarrow> bit r n \<or> (n = b \<and> b < 8)"
  unfolding set_bit_reg_def by (auto simp: bit_simps)

lemma bit_clear_bit_reg: "bit (clear_bit_reg r b) n \<longleftrightarrow> bit r n \<and> n \<noteq> b"
  unfolding clear_bit_reg_def by (auto simp: bit_simps dest: bit_imp_le_length)

lemma word_succ_mod_less: "0 < (N::u16) \<Longrightarrow> (h + 1) mod N < N"
  by (simp add: word_mod_less_divisor)

lemma succ_nz: "t < (N::u16) \<Longrightarrow> 1 + t \<noteq> 0"
  using neg_eq_iff_add_eq_0 by force

lemma unat_succ_mod:
  assumes "t < (N::u16)"
  shows "unat ((t + 1) mod N) = (unat t + 1) mod unat N"
proof -
  have "unat (1 + t) = Suc (unat t)"
    by (rule unatSuc [OF succ_nz [OF assms]])
  then show ?thesis by (simp add: unat_mod add.commute)
qed

lemma nat_ring_pop:
  fixes n h t :: nat
  assumes "h < n" "t < n"
  shows "(n + h - (t + 1) mod n) mod n + 1 = (if h = t then n else (n + h - t) mod n)"
proof (cases "t + 1 = n")
  case True
  then have z: "(t + 1) mod n = 0" by simp
  show ?thesis
  proof (cases "h = t")
    case True
    with \<open>t + 1 = n\<close> z assms show ?thesis by simp
  next
    case False
    with \<open>t + 1 = n\<close> assms have "h < t" by simp
    then have "n + h - t = h + 1" "h + 1 < n" using \<open>t + 1 = n\<close> by simp_all
    then show ?thesis using z False assms by simp
  qed
next
  case False
  then have lt: "t + 1 < n" using assms by simp
  then have e: "(t + 1) mod n = t + 1" by simp
  consider "h = t" | "t < h" | "h < t" by linarith
  then show ?thesis
  proof cases
    case 1
    then have "n + h - (t + 1) = n - 1" by simp
    then show ?thesis using 1 lt unfolding e by simp
  next
    case 2
    then have a: "n + h - (t + 1) = n + (h - t - 1)" and b: "n + h - t = n + (h - t)"
      by simp_all
    have "(n + (h - t - 1)) mod n = h - t - 1" "(n + (h - t)) mod n = h - t"
      using assms by simp_all
    then have "(n + h - (t + 1)) mod n = h - t - 1" "(n + h - t) mod n = h - t"
      by (simp_all only: a b)
    then show ?thesis using 2 by (simp only: e) simp
  next
    case 3
    then have "n + h - (t + 1) < n" "n + h - t < n" using assms by simp_all
    then show ?thesis using 3 assms unfolding e by simp
  qed
qed


lemma ring_count_step:
  assumes "h < (N::u16)" "t < N"
  shows "ring_count N h ((t + 1) mod N) + 1 = (if h = t then unat N else ring_count N h t)"
proof -
  have hN: "unat h < unat N" and tN: "unat t < unat N"
    using assms by (simp_all add: word_less_nat_alt)
  have nt: "unat ((t + 1) mod N) = (unat t + 1) mod unat N"
    by (rule unat_succ_mod [OF assms(2)])
  show ?thesis
    unfolding ring_count_def nt
    using nat_ring_pop [OF hN tN] by (simp add: word_unat_eq_iff)
qed

lemma ring_count_empty: "0 < N \<Longrightarrow> ring_count N t t = 0"
  unfolding ring_count_def by simp

lemma succ_mod_neq:
  assumes "t < (N::u16)" "1 < N"
  shows "(t + 1) mod N \<noteq> t"
proof
  assume e: "(t + 1) mod N = t"
  have tN: "unat t < unat N" and N1: "1 < unat N"
    using assms by (simp_all add: word_less_nat_alt)
  have "(unat t + 1) mod unat N = unat t"
    using unat_succ_mod [OF assms(1)] e by simp
  then show False
    using tN N1 by (cases "unat t + 1 = unat N") simp_all
qed

lemma merge_or: "(push_bit 8 (ucast (e::u8)) + ucast (ch::u8) :: u16) = push_bit 8 (ucast e) OR ucast ch"
  by (rule disjunctive_add) (auto simp: bit_simps dest: bit_imp_le_length)

lemma merge_low: "(ucast (push_bit 8 (ucast (e::u8)) + ucast (ch::u8) :: u16) :: u8) = ch"
  unfolding merge_or by (rule bit_word_eqI) (auto simp: bit_simps dest: bit_imp_le_length)

lemma merge_high: "(ucast (drop_bit 8 (push_bit 8 (ucast (e::u8)) + ucast (ch::u8) :: u16)) :: u8) = e"
  unfolding merge_or by (rule bit_word_eqI) (auto simp: bit_simps dest: bit_imp_le_length)

lemma open_sets_TXEN:
  "bit_is_set (clear_bit_reg (set_bit_reg (set_bit_reg (set_bit_reg b TXEN) RXEN) RXCIE) UDRIE) TXEN"
  by (simp add: bit_is_set_iff bit_clear_bit_reg bit_set_bit_reg bit_defs)

lemma open_port_opens: "fst (open_port c s) = 0 \<Longrightarrow> isOpen (snd (open_port c s))"
  by (auto simp: open_port_def Let_def isOpen_def open_sets_TXEN split: if_splits)


subsection \<open>The receive handler\<close>

text \<open>
  Claim C4. When \<open>onRecv\<close> fires on a receive ring of \<open>N\<close> cells whose indices
  lie below \<open>N\<close>: if the ring is full (\<open>(rx_head + 1) mod N = rx_tail\<close>) the incoming
  byte is dropped, the overflow flag is set in the error latch and nothing else but the
  latch and the LED changes; if it is not full the byte is stored at slot \<open>rx_head\<close> and
  \<open>rx_head\<close> advances by one modulo \<open>N\<close>. In both cases the indices stay below \<open>N\<close>
  and no slot other than the one at \<open>rx_head\<close> is written.
\<close>

theorem onRecv_ring:
  assumes "rx_head s < BTR_USART_RX_BUFF_SIZE c" and "rx_tail s < BTR_USART_RX_BUFF_SIZE c"
    and "length (rx_buff s) = unat (BTR_USART_RX_BUFF_SIZE c)"
  shows
  "((rx_head s + 1) mod BTR_USART_RX_BUFF_SIZE c = rx_tail s \<longrightarrow>
      onRecv c s = s\<lparr>rx_error := (ucsr_a s AND 0x1C) OR ucast (drop_bit 8 (BTR_USART_OVERFLOW_ERR c)),
                      led := \<not> led s\<rparr> \<and>
      rx_error (onRecv c s) AND ucast (drop_bit 8 (BTR_USART_OVERFLOW_ERR c))
        = ucast (drop_bit 8 (BTR_USART_OVERFLOW_ERR c))) \<and>
   ((rx_head s + 1) mod BTR_USART_RX_BUFF_SIZE c \<noteq> rx_tail s \<longrightarrow>
      onRecv c s = s\<lparr>rx_error := ucsr_a s AND 0x1C,
                      rx_buff := (rx_buff s)[unat (rx_head s) := udr_rx s],
                      rx_head := (rx_head s + 1) mod BTR_USART_RX_BUFF_SIZE c,
                      led := \<not> led s\<rparr> \<and>
      rx_buff (onRecv c s) ! unat (rx_head s) = udr_rx s) \<and>
   rx_head (onRecv c s) < BTR_USART_RX_BUFF_SIZE c \<and>
   rx_tail (onRecv c s) < BTR_USART_RX_BUFF_SIZE c \<and>
   length (rx_buff (onRecv c s)) = length (rx_buff s) \<and>
   (\<forall>i. i \<noteq> unat (rx_head s) \<longrightarrow> rx_buff (onRecv c s) ! i = rx_buff s ! i)"
proof -
  have pos: "0 < BTR_USART_RX_BUFF_SIZE c"
    using assms(1) by (auto simp: word_gt_0)
  have nx: "(rx_head s + 1) mod BTR_USART_RX_BUFF_SIZE c < BTR_USART_RX_BUFF_SIZE c"
    by (rule word_succ_mod_less [OF pos])
  have ix: "unat (rx_head s) < length (rx_buff s)"
    using assms(1,3) by (simp add: word_less_nat_alt)
  show ?thesis
    using assms(1,2) nx ix
    by (simp add: onRecv_def Let_def bit_defs or.commute)
qed

theorem onRecv_ring_witness:
  "onRecv cfg8 (port0\<lparr>rx_head := 7, udr_rx := 0x42, ucsr_a := 0x28\<rparr>)
     = port0\<lparr>rx_head := 7, udr_rx := 0x42, ucsr_a := 0x28, rx_error := 0x0A, led := True\<rparr> \<and>
   onRecv cfg8 (port0\<lparr>udr_rx := 0x41\<rparr>)
     = port0\<lparr>udr_rx := 0x41, rx_buff := [0x41, 0, 0, 0, 0, 0, 0, 0], rx_head := 1, led := True\<rparr>"
  using onRecv_ring [of "port0\<lparr>rx_head := 7, udr_rx := 0x42, ucsr_a := 0x28\<rparr>" cfg8]
    onRecv_ring [of "port0\<lparr>udr_rx := 0x41\<rparr>" cfg8]
  by (simp add: onRecv_def eval_defs)

subsection \<open>The non-blocking pop\<close>

text \<open>
  Claim C5. \<open>recv()\<close> on an empty receive ring (\<open>rx_head = rx_tail\<close>) returns the
  no-data pattern, whose high byte is all ones, and changes neither the ring nor the
  error latch. On a non-empty ring it returns the byte of the tail slot in bits 0-7 and
  the latched error flags in bits 8-15, advances \<open>rx_tail\<close> by one modulo \<open>N\<close> and
  clears the latch; nothing else changes.
\<close>

theorem recv_pop:
  "(rx_head s = rx_tail s \<longrightarrow>
      recv c s = (BTR_USART_NO_DATA, s) \<and> drop_bit 8 BTR_USART_NO_DATA = (0xFF :: u16)) \<and>
   (rx_head s \<noteq> rx_tail s \<longrightarrow>
      (ucast (fst (recv c s)) :: u8) = rx_buff s ! unat (rx_tail s) \<and>
      (ucast (drop_bit 8 (fst (recv c s))) :: u8) = rx_error s \<and>
      snd (recv c s) = s\<lparr>rx_tail := (rx_tail s + 1) mod BTR_USART_RX_BUFF_SIZE c, rx_error := 0\<rparr>)"
  by (simp add: recv_def Let_def merge_low merge_high BTR_USART_NO_DATA_def)


theorem recv_pop_witness:
  "recv cfg8 port0 = (0xFF00, port0) \<and>
   rx_head (onRecv cfg8 (port0\<lparr>udr_rx := 0x41, ucsr_a := 0x30\<rparr>))
     \<noteq> rx_tail (onRecv cfg8 (port0\<lparr>udr_rx := 0x41, ucsr_a := 0x30\<rparr>)) \<and>
   fst (recv cfg8 (onRecv cfg8 (port0\<lparr>udr_rx := 0x41, ucsr_a := 0x30\<rparr>))) = 0x1041 \<and>
   rx_tail (snd (recv cfg8 (onRecv cfg8 (port0\<lparr>udr_rx := 0x41, ucsr_a := 0x30\<rparr>)))) = 1 \<and>
   rx_error (snd (recv cfg8 (onRecv cfg8 (port0\<lparr>udr_rx := 0x41, ucsr_a := 0x30\<rparr>)))) = 0"
  using recv_pop [of port0 cfg8]
    recv_pop [of "onRecv cfg8 (port0\<lparr>udr_rx := 0x41, ucsr_a := 0x30\<rparr>)" cfg8]
  by (simp add: recv_def onRecv_def eval_defs)

subsection \<open>Opening the port\<close>

text \<open>
  Claim C7. \<open>open()\<close> is idempotent: on a port that is already open it returns 0 and
  writes no register, and after an \<open>open()\<close> that returned 0 the port is open, so a
  second \<open>open()\<close> returns 0 and leaves the state the first one established.
\<close>

theorem open_idempotent:
  "(isOpen s \<longrightarrow> open_port c s = (0, s)) \<and>
   (fst (open_port c s) = 0 \<longrightarrow>
      isOpen (snd (open_port c s)) \<and>
      open_port c (snd (open_port c s)) = (0, snd (open_port c s)))"
proof (intro conjI impI)
  show "open_port c s = (0, s)" if "isOpen s"
    using that by (simp add: open_port_def)
  assume ok: "fst (open_port c s) = 0"
  show op: "isOpen (snd (open_port c s))"
    by (rule open_port_opens [OF ok])
  show "open_port c (snd (open_port c s)) = (0, snd (open_port c s))"
    using op by (simp add: open_port_def)
qed

theorem open_idempotent_witness:
  "\<not> isOpen port0 \<and> fst (open_port cfg8 port0) = 0 \<and>
   ucsr_b (snd (open_port cfg8 port0)) = 0x98 \<and>
   ubrr_l (snd (open_port cfg8 port0)) = 8 \<and>
   isOpen (snd (open_port cfg8 port0)) \<and>
   open_port cfg8 (snd (open_port cfg8 port0)) = (0, snd (open_port cfg8 port0))"
  using open_idempotent [of port0 cfg8]
  by (simp add: open_port_def isOpen_def valid_id_def BAUD_CALC_def eval_defs)

subsection \<open>The transmit handler\<close>

text \<open>
  Claim C10. On a transmit ring that is not empty (\<open>tx_head \<noteq> tx_tail\<close>, indices below
  \<open>N\<close>) \<open>onSend\<close> removes exactly one byte: \<open>tx_tail\<close> advances by one modulo \<open>N\<close> and
  stays below \<open>N\<close>, the count of the ring drops by one, and the transmit-empty
  interrupt is disabled exactly when the ring has become empty. \<open>onSend\<close> does not test
  for emptiness: called on an empty ring of capacity above one it leaves \<open>tx_head\<close> and
  \<open>tx_tail\<close> different, so the ring then counts \<open>N - 1\<close> bytes.
\<close>

theorem onSend_pop:
  "(tx_head s < BTR_USART_TX_BUFF_SIZE c \<and> tx_tail s < BTR_USART_TX_BUFF_SIZE c \<and> tx_head s \<noteq> tx_tail s \<longrightarrow>
      tx_tail (onSend c s) = (tx_tail s + 1) mod BTR_USART_TX_BUFF_SIZE c \<and>
      tx_tail (onSend c s) < BTR_USART_TX_BUFF_SIZE c \<and>
      tx_head (onSend c s) = tx_head s \<and>
      tx_buff (onSend c s) = tx_buff s \<and>
      udr_tx (onSend c s) = udr_tx s @ [tx_buff s ! unat (tx_tail s)] \<and>
      ring_count (BTR_USART_TX_BUFF_SIZE c) (tx_head (onSend c s)) (tx_tail (onSend c s)) + 1
        = ring_count (BTR_USART_TX_BUFF_SIZE c) (tx_head s) (tx_tail s) \<and>
      ucsr_b (onSend c s) =
        (if tx_head (onSend c s) = tx_tail (onSend c s)
         then clear_bit_reg (ucsr_b s) UDRIE else ucsr_b s) \<and>
      (bit_is_set (ucsr_b s) UDRIE \<longrightarrow>
         (bit_is_clear (ucsr_b (onSend c s)) UDRIE
            \<longleftrightarrow> tx_head (onSend c s) = tx_tail (onSend c s)))) \<and>
   (tx_head s = tx_tail s \<and> tx_tail s < BTR_USART_TX_BUFF_SIZE c \<and> 1 < BTR_USART_TX_BUFF_SIZE c \<longrightarrow>
      tx_head (onSend c s) \<noteq> tx_tail (onSend c s) \<and>
      ring_count (BTR_USART_TX_BUFF_SIZE c) (tx_head s) (tx_tail s) = 0 \<and>
      ring_count (BTR_USART_TX_BUFF_SIZE c) (tx_head (onSend c s)) (tx_tail (onSend c s))
        = unat (BTR_USART_TX_BUFF_SIZE c) - 1)"
proof (intro conjI impI)
  assume a: "tx_head s < BTR_USART_TX_BUFF_SIZE c \<and> tx_tail s < BTR_USART_TX_BUFF_SIZE c \<and> tx_head s \<noteq> tx_tail s"
  then have pos: "0 < BTR_USART_TX_BUFF_SIZE c" by (auto simp: word_gt_0)
  show tl: "tx_tail (onSend c s) = (tx_tail s + 1) mod BTR_USART_TX_BUFF_SIZE c"
    by (simp add: onSend_def Let_def)
  show "tx_tail (onSend c s) < BTR_USART_TX_BUFF_SIZE c"
    using pos by (simp add: tl word_mod_less_divisor)
  show hd: "tx_head (onSend c s) = tx_head s" by (simp add: onSend_def Let_def)
  show "tx_buff (onSend c s) = tx_buff s" by (simp add: onSend_def Let_def)
  show "udr_tx (onSend c s) = udr_tx s @ [tx_buff s ! unat (tx_tail s)]"
    by (simp add: onSend_def Let_def)
  show "ring_count (BTR_USART_TX_BUFF_SIZE c) (tx_head (onSend c s)) (tx_tail (onSend c s)) + 1
        = ring_count (BTR_USART_TX_BUFF_SIZE c) (tx_head s) (tx_tail s)"
    unfolding hd tl
    using a ring_count_step [of "tx_head s" "BTR_USART_TX_BUFF_SIZE c" "tx_tail s"] by simp
  show "ucsr_b (onSend c s) =
        (if tx_head (onSend c s) = tx_tail (onSend c s)
         then clear_bit_reg (ucsr_b s) UDRIE else ucsr_b s)"
    by (simp add: onSend_def Let_def)
  assume "bit_is_set (ucsr_b s) UDRIE"
  then show "bit_is_clear (ucsr_b (onSend c s)) UDRIE
            \<longleftrightarrow> tx_head (onSend c s) = tx_tail (onSend c s)"
    by (simp add: onSend_def Let_def bit_is_set_iff bit_is_clear_iff bit_clear_bit_reg)
next
  assume b: "tx_head s = tx_tail s \<and> tx_tail s < BTR_USART_TX_BUFF_SIZE c \<and> 1 < BTR_USART_TX_BUFF_SIZE c"
  then have pos: "0 < BTR_USART_TX_BUFF_SIZE c" by (auto simp: word_gt_0)
  have tl: "tx_tail (onSend c s) = (tx_tail s + 1) mod BTR_USART_TX_BUFF_SIZE c"
    by (simp add: onSend_def Let_def)
  have hd: "tx_head (onSend c s) = tx_tail s" using b by (simp add: onSend_def Let_def)
  have ne: "(tx_tail s + 1) mod BTR_USART_TX_BUFF_SIZE c \<noteq> tx_tail s"
    using b succ_mod_neq by blast
  show "tx_head (onSend c s) \<noteq> tx_tail (onSend c s)"
    unfolding hd tl using ne by simp
  show "ring_count (BTR_USART_TX_BUFF_SIZE c) (tx_head s) (tx_tail s) = 0"
    using b pos by (simp add: ring_count_empty)
  show "ring_count (BTR_USART_TX_BUFF_SIZE c) (tx_head (onSend c s)) (tx_tail (onSend c s))
        = unat (BTR_USART_TX_BUFF_SIZE c) - 1"
    unfolding hd tl
    using b ring_count_step [of "tx_tail s" "BTR_USART_TX_BUFF_SIZE c" "tx_tail s"] by simp
qed


theorem onSend_pop_witness:
  "onSend cfg8 (port0\<lparr>tx_head := 2, tx_tail := 1, ucsr_b := 0x20, tx_buff := [0, 0x68, 0x65, 0, 0, 0, 0, 0]\<rparr>)
     = port0\<lparr>tx_head := 2, tx_tail := 2, ucsr_b := 0, tx_buff := [0, 0x68, 0x65, 0, 0, 0, 0, 0],
              udr_tx := [0x68]\<rparr> \<and>
   ring_count 8 2 1 = 1 \<and> ring_count 8 2 2 = 0 \<and>
   tx_tail (onSend cfg8 port0) = 1 \<and> tx_head (onSend cfg8 port0) = 0 \<and> ring_count 8 0 1 = 7"
  using onSend_pop [of "port0\<lparr>tx_head := 2, tx_tail := 1, ucsr_b := 0x20, tx_buff := [0, 0x68, 0x65, 0, 0, 0, 0, 0]\<rparr>" cfg8]
    onSend_pop [of port0 cfg8]
  by (simp add: onSend_def ring_count_def eval_defs)

subsection \<open>Flushing and closing\<close>

lemma flush_result:
  "flush c E s = Some (r, E1, s1) \<Longrightarrow> r = 0 \<and> \<not> flush_pending s1"
  by (induction E arbitrary: s) (auto split: if_splits)


lemma onRecv_tx [simp]:
  "ucsr_b (onRecv c s) = ucsr_b s" "tx_head (onRecv c s) = tx_head s"
  "tx_tail (onRecv c s) = tx_tail s" "tx_buff (onRecv c s) = tx_buff s"
  "udr_tx (onRecv c s) = udr_tx s" "sreg (onRecv c s) = sreg s"
  by (simp_all add: onRecv_def Let_def)























subsection \<open>Sending one byte\<close>

lemma onSend_frame [simp]:
  "sreg (onSend c s) = sreg s" "ucsr_a (onSend c s) = ucsr_a s"
  "tx_head (onSend c s) = tx_head s" "tx_buff (onSend c s) = tx_buff s"
  "tx_tail (onSend c s) = (tx_tail s + 1) mod BTR_USART_TX_BUFF_SIZE c"
  "rx_head (onSend c s) = rx_head s" "rx_tail (onSend c s) = rx_tail s"
  "rx_buff (onSend c s) = rx_buff s" "rx_error (onSend c s) = rx_error s"
  by (simp_all add: onSend_def Let_def)

lemma hw_step_sreg [simp]: "sreg (hw_step c e s) = sreg s"
  by (cases e) (simp_all add: Let_def)

lemma hw_step_tx_noirq:
  "bit_is_clear (sreg s) SREG_I \<Longrightarrow> tx_tail (hw_step c e s) = tx_tail s"
  by (cases e) (simp_all add: Let_def bit_is_clear_def bit_is_set_def)

lemma send_wait_room:
  "head_next \<noteq> tx_tail s \<Longrightarrow> send_wait c head_next timeout delays E s = Some (True, E, s)"
  by (cases E) simp_all

lemma send_wait_pump:
  assumes "head_next = tx_tail s" "bit_is_clear (sreg s) SREG_I" "bit_is_set (ucsr_a s) UDRE"
    and "tx_tail s < BTR_USART_TX_BUFF_SIZE c" "1 < BTR_USART_TX_BUFF_SIZE c"
  shows "send_wait c head_next timeout delays (e # E) s = Some (True, E, hw_step c e (onSend c s))"
proof -
  have "tx_tail (hw_step c e (onSend c s)) = (tx_tail s + 1) mod BTR_USART_TX_BUFF_SIZE c"
    using assms(2) by (simp add: hw_step_tx_noirq)
  then have "head_next \<noteq> tx_tail (hw_step c e (onSend c s))"
    using succ_mod_neq [OF assms(4,5)] assms(1) by simp
  then show ?thesis
    using assms(1-3) by (simp add: send_wait_room)
qed

lemma unat_add_small:
  fixes a b t :: u32
  assumes "unat a + unat b < unat t"
  shows "unat (a + b) = unat a + unat b"
proof -
  have "unat t < 2 ^ LENGTH(32)" by (rule unsigned_less)
  then have "unat a + unat b < 2 ^ LENGTH(32)" using assms by linarith
  then show ?thesis by (simp only: unat_add_lem)
qed

lemma send_wait_skip:
  assumes "tx_stalled c head_next E1 s"
    and "timeout = 0 \<or> unat delays + length E1 * unat (BTR_USART_TX_DELAY c) < unat timeout"
  shows "send_wait c head_next timeout delays (E1 @ E2) s =
         send_wait c head_next timeout
           (delays_after timeout (BTR_USART_TX_DELAY c) delays (length E1)) E2 (hw_run c E1 s)"
  using assms
proof (induction E1 arbitrary: s delays)
  case Nil
  then show ?case by (simp add: delays_after_def)
next
  case (Cons e E1)
  let ?D = "BTR_USART_TX_DELAY c"
  from Cons.prems(1) have full: "head_next = tx_tail s"
    and np: "\<not> (bit_is_clear (sreg s) SREG_I \<and> bit_is_set (ucsr_a s) UDRE)"
    and st: "tx_stalled c head_next E1 (hw_step c e s)"
    by auto
  show ?case
  proof (cases "timeout = 0")
    case True
    then show ?thesis
      using full np Cons.IH [OF st, of delays] by (auto simp: delays_after_def)
  next
    case False
    then have b: "unat delays + (length E1 + 1) * unat ?D < unat timeout"
      using Cons.prems(2) by simp
    then have b1: "unat delays + unat ?D < unat timeout" by (simp add: algebra_simps)
    have u: "unat (delays + ?D) = unat delays + unat ?D"
      by (rule unat_add_small [OF b1])
    then have lt: "\<not> timeout \<le> delays + ?D"
      using b1 by (simp add: word_le_nat_alt)
    have b2: "unat (delays + ?D) + length E1 * unat ?D < unat timeout"
      using b u by (simp add: algebra_simps)
    have pos: "0 < timeout" using False by (simp add: word_gt_0)
    have d: "delays_after timeout ?D (delays + ?D) (length E1)
             = delays_after timeout ?D delays (length (e # E1))"
      using pos by (simp add: delays_after_def algebra_simps)
    show ?thesis
      using full np pos lt Cons.IH [OF st, of "delays + ?D"] b2 False d
      by (auto simp: Let_def)
  qed
qed


lemma hw_run_append: "hw_run c (E1 @ E2) s = hw_run c E2 (hw_run c E1 s)"
  by (induction E1 arbitrary: s) simp_all

lemma tx_stalled_append:
  "tx_stalled c hn (E1 @ E2) s \<longleftrightarrow> tx_stalled c hn E1 s \<and> tx_stalled c hn E2 (hw_run c E1 s)"
  by (induction E1 arbitrary: s) auto

lemma hw_run_noirq:
  "bit_is_clear (sreg s) SREG_I \<Longrightarrow>
   tx_tail (hw_run c E s) = tx_tail s \<and> sreg (hw_run c E s) = sreg s"
  by (induction E arbitrary: s) (simp_all add: hw_step_tx_noirq)

lemma delays_after_unat:
  assumes "0 < timeout" "n * unat step < 2 ^ 32"
  shows "unat (delays_after timeout step 0 n) = n * unat step"
proof -
  have e: "(of_nat n * step :: u32) = of_nat (n * unat step)" by simp
  have "unat (of_nat (n * unat step) :: u32) = (n * unat step) mod 2 ^ LENGTH(32)"
    by (rule unat_of_nat)
  also have "\<dots> = n * unat step" using assms(2) by simp
  finally have "unat (of_nat n * step) = n * unat step" by (simp only: e)
  then show ?thesis using assms(1) by (simp add: delays_after_def)
qed

lemma send_wait_False_timeout:
  "send_wait c hn timeout delays E s = Some (False, E1, s1) \<Longrightarrow> 0 < timeout"
  by (induction E arbitrary: s delays) (auto simp: Let_def split: if_splits)

lemma send_store_fields:
  "tx_head (send_store hn ch s) = hn"
  "tx_tail (send_store hn ch s) = tx_tail s"
  "tx_buff (send_store hn ch s) = (tx_buff s)[unat hn := ch]"
  "udr_tx (send_store hn ch s) = udr_tx s"
  "bit_is_set (ucsr_b (send_store hn ch s)) UDRIE"
  by (simp_all add: send_store_def Let_def bit_is_set_iff bit_set_bit_reg UDRIE_def)

lemma send_rc:
  assumes "send c ch drain timeout E s = Some (rc, E1, s1)"
  shows "rc = 0 \<or> (rc = - 1 \<and> 0 < timeout)"
proof -
  let ?hn = "(tx_head s + 1) mod BTR_USART_TX_BUFF_SIZE c"
  from assms obtain room E0 s0 where w: "send_wait c ?hn timeout 0 E s = Some (room, E0, s0)"
    by (auto simp: send_def Let_def split: option.splits)
  show ?thesis
  proof (cases room)
    case True
    with assms w show ?thesis
      by (auto simp: send_def Let_def split: if_splits dest: flush_result)
  next
    case False
    with assms w send_wait_False_timeout [of c ?hn timeout 0 E s E0 s0] show ?thesis
      by (auto simp: send_def Let_def)
  qed
qed

lemma send_wait_timeout:
  assumes st: "tx_stalled c hn (E1 @ [e]) s"
    and pos: "0 < timeout"
    and lo: "length E1 * unat (BTR_USART_TX_DELAY c) < unat timeout"
    and hi: "unat timeout \<le> (length E1 + 1) * unat (BTR_USART_TX_DELAY c)"
    and nw: "(length E1 + 1) * unat (BTR_USART_TX_DELAY c) < 2 ^ 32"
  shows "send_wait c hn timeout 0 (E1 @ e # E2) s = Some (False, E2, hw_run c (E1 @ [e]) s)"
proof -
  let ?D = "BTR_USART_TX_DELAY c"
  let ?s1 = "hw_run c E1 s"
  let ?d = "delays_after timeout ?D 0 (length E1)"
  from st have st1: "tx_stalled c hn E1 s" and full: "hn = tx_tail ?s1"
    and np: "\<not> (bit_is_clear (sreg ?s1) SREG_I \<and> bit_is_set (ucsr_a ?s1) UDRE)"
    by (auto simp: tx_stalled_append)
  have sk: "send_wait c hn timeout 0 (E1 @ e # E2) s = send_wait c hn timeout ?d (e # E2) ?s1"
    using send_wait_skip [OF st1, of timeout 0 "e # E2"] lo by simp
  have "length E1 * unat ?D < 2 ^ 32" using nw by simp
  then have ud: "unat ?d = length E1 * unat ?D"
    by (rule delays_after_unat [OF pos])
  have "unat ?d + unat ?D < 2 ^ LENGTH(32)" using ud nw by simp
  then have "unat (?d + ?D) = unat ?d + unat ?D" by (simp only: unat_add_lem)
  then have ge: "timeout \<le> ?d + ?D" using hi ud by (simp add: word_le_nat_alt)
  show ?thesis
    unfolding sk using full np pos ge by (auto simp: Let_def hw_run_append)
qed


lemma port_full_eq:
  "port_full = port0\<lparr>ubrr_l := 8, ucsr_b := 0xB8, tx_head := 7,
      tx_buff := [0, 1, 2, 3, 4, 5, 6, 7]\<rparr>"
  by (simp add: port_full_def open_port_def isOpen_def valid_id_def BAUD_CALC_def
      send_def send_store_def eval_defs)

lemmas run_defs =
  send_def send_store_def onSend_def onRecv_def flush_pending_def flush_body_def recv_def

text \<open>
  Claim C3. \<open>send(ch, drain, timeout)\<close> called on a full transmit ring
  (\<open>(tx_head + 1) mod N = tx_tail\<close>) waits for room.
  (1) With global interrupts disabled it calls \<open>onSend\<close> itself as soon as the data
  register is empty, then stores the byte and returns 0.
  (2) With \<open>timeout > 0\<close>, if no room frees during the rounds it waits and the
  accumulated delay reaches \<open>timeout\<close> (the counter not wrapping), it returns -1.
  (3) With \<open>timeout = 0\<close> it does not return as long as no room frees.
  (4) When room frees before the bound the byte is stored at the new head, the
  transmit-empty interrupt is enabled and 0 is returned (after the flush when
  \<open>drain\<close> is set).
  (5) The return value is 0 or -1, and -1 only with \<open>timeout > 0\<close>.
\<close>

theorem send_full_ring:
  assumes full: "(tx_head s + 1) mod BTR_USART_TX_BUFF_SIZE c = tx_tail s"
  shows
  "(bit_is_clear (sreg s) SREG_I \<and> tx_stalled c (tx_tail s) E1 s \<and>
    bit_is_set (ucsr_a (hw_run c E1 s)) UDRE \<and>
    (timeout = 0 \<or> length E1 * unat (BTR_USART_TX_DELAY c) < unat timeout) \<and>
    tx_tail s < BTR_USART_TX_BUFF_SIZE c \<and> 1 < BTR_USART_TX_BUFF_SIZE c \<longrightarrow>
      send c ch False timeout (E1 @ e # E2) s =
        Some (0, E2, send_store (tx_tail s) ch (hw_step c e (onSend c (hw_run c E1 s))))) \<and>
   (0 < timeout \<and> tx_stalled c (tx_tail s) (E1 @ [e]) s \<and>
    length E1 * unat (BTR_USART_TX_DELAY c) < unat timeout \<and>
    unat timeout \<le> (length E1 + 1) * unat (BTR_USART_TX_DELAY c) \<and>
    (length E1 + 1) * unat (BTR_USART_TX_DELAY c) < 2 ^ 32 \<longrightarrow>
      send c ch drain timeout (E1 @ e # E2) s = Some (- 1, E2, hw_run c (E1 @ [e]) s)) \<and>
   (tx_stalled c (tx_tail s) E s \<and> tx_tail (hw_run c E s) = tx_tail s \<longrightarrow>
      send c ch drain 0 E s = None) \<and>
   (tx_stalled c (tx_tail s) E1 s \<and> tx_tail (hw_run c E1 s) \<noteq> tx_tail s \<and>
    (timeout = 0 \<or> length E1 * unat (BTR_USART_TX_DELAY c) < unat timeout) \<longrightarrow>
      send c ch False timeout (E1 @ E2) s =
        Some (0, E2, send_store (tx_tail s) ch (hw_run c E1 s)) \<and>
      send c ch True timeout (E1 @ E2) s =
        flush c E2 (send_store (tx_tail s) ch (hw_run c E1 s))) \<and>
   (send c ch drain timeout E s = Some (rc, E3, s3) \<longrightarrow> rc = 0 \<or> (rc = - 1 \<and> 0 < timeout)) \<and>
   tx_head (send_store (tx_tail s) ch s1) = tx_tail s \<and>
   tx_buff (send_store (tx_tail s) ch s1) = (tx_buff s1)[unat (tx_tail s) := ch] \<and>
   bit_is_set (ucsr_b (send_store (tx_tail s) ch s1)) UDRIE"
proof (intro conjI impI)
  let ?hn = "tx_tail s"
  let ?D = "BTR_USART_TX_DELAY c"
  {
    assume a: "bit_is_clear (sreg s) SREG_I \<and> tx_stalled c ?hn E1 s \<and>
      bit_is_set (ucsr_a (hw_run c E1 s)) UDRE \<and>
      (timeout = 0 \<or> length E1 * unat ?D < unat timeout) \<and>
      tx_tail s < BTR_USART_TX_BUFF_SIZE c \<and> 1 < BTR_USART_TX_BUFF_SIZE c"
    let ?s1 = "hw_run c E1 s"
    have fr: "tx_tail ?s1 = tx_tail s" "sreg ?s1 = sreg s"
      using a hw_run_noirq [of s c E1] by simp_all
    have sk: "send_wait c ?hn timeout 0 (E1 @ e # E2) s =
          send_wait c ?hn timeout (delays_after timeout ?D 0 (length E1)) (e # E2) ?s1"
      using a send_wait_skip [of c ?hn E1 s timeout 0 "e # E2"] by simp
    have "send_wait c ?hn timeout (delays_after timeout ?D 0 (length E1)) (e # E2) ?s1
          = Some (True, E2, hw_step c e (onSend c ?s1))"
      using a fr by (intro send_wait_pump) simp_all
    then show "send c ch False timeout (E1 @ e # E2) s =
        Some (0, E2, send_store ?hn ch (hw_step c e (onSend c ?s1)))"
      using sk full by (simp add: send_def Let_def)
  }
  {
    assume b: "0 < timeout \<and> tx_stalled c ?hn (E1 @ [e]) s \<and>
      length E1 * unat ?D < unat timeout \<and>
      unat timeout \<le> (length E1 + 1) * unat ?D \<and>
      (length E1 + 1) * unat ?D < 2 ^ 32"
    then have "send_wait c ?hn timeout 0 (E1 @ e # E2) s = Some (False, E2, hw_run c (E1 @ [e]) s)"
      by (intro send_wait_timeout) simp_all
    then show "send c ch drain timeout (E1 @ e # E2) s = Some (- 1, E2, hw_run c (E1 @ [e]) s)"
      using full by (simp add: send_def Let_def)
  }
  {
    assume d: "tx_stalled c ?hn E s \<and> tx_tail (hw_run c E s) = tx_tail s"
    then have "send_wait c ?hn 0 0 E s = send_wait c ?hn 0 (delays_after 0 ?D 0 (length E)) [] (hw_run c E s)"
      using send_wait_skip [of c ?hn E s 0 0 "[]"] by simp
    then have "send_wait c ?hn 0 0 E s = None" using d by simp
    then show "send c ch drain 0 E s = None"
      using full by (simp add: send_def Let_def)
  }
  {
    assume f: "tx_stalled c ?hn E1 s \<and> tx_tail (hw_run c E1 s) \<noteq> tx_tail s \<and>
      (timeout = 0 \<or> length E1 * unat ?D < unat timeout)"
    then have "send_wait c ?hn timeout 0 (E1 @ E2) s =
        send_wait c ?hn timeout (delays_after timeout ?D 0 (length E1)) E2 (hw_run c E1 s)"
      using send_wait_skip [of c ?hn E1 s timeout 0 E2] by simp
    also have "\<dots> = Some (True, E2, hw_run c E1 s)"
      using f by (intro send_wait_room) auto
    finally have w: "send_wait c ?hn timeout 0 (E1 @ E2) s = Some (True, E2, hw_run c E1 s)" .
    show "send c ch False timeout (E1 @ E2) s = Some (0, E2, send_store ?hn ch (hw_run c E1 s))"
      using w full by (simp add: send_def Let_def)
    show "send c ch True timeout (E1 @ E2) s = flush c E2 (send_store ?hn ch (hw_run c E1 s))"
      using w full by (simp add: send_def Let_def)
  }
  show "rc = 0 \<or> (rc = - 1 \<and> 0 < timeout)"
    if "send c ch drain timeout E s = Some (rc, E3, s3)"
    using send_rc [OF that] .
qed (simp_all add: send_store_fields)


theorem send_full_ring_witness:
  "(tx_head port_full + 1) mod BTR_USART_TX_BUFF_SIZE cfg8 = tx_tail port_full \<and>
   tx_stalled cfg8 (tx_tail port_full) [Quiet, Quiet, Quiet] port_full \<and>
   tx_stalled cfg8 (tx_tail port_full) [Quiet, UdreIrq] port_full \<and>
   tx_tail (hw_run cfg8 [Quiet, UdreIrq] port_full) = 1 \<and>
   map_option (\<lambda>(rc, E, s). (rc, E, tx_head s, tx_tail s, tx_buff s, udr_tx s))
     (send cfg8 0x41 False 50 [Quiet] (port_full\<lparr>sreg := 0\<rparr>))
     = Some (0, [], 0, 1, [0x41, 1, 2, 3, 4, 5, 6, 7], [0]) \<and>
   send cfg8 0x41 False 3 [Quiet, Quiet, Quiet] port_full = Some (- 1, [], port_full) \<and>
   send cfg8 0x41 False 0 [Quiet, Quiet] port_full = None \<and>
   map_option (\<lambda>(rc, E, s). (rc, E, tx_head s, tx_tail s, tx_buff s, udr_tx s))
     (send cfg8 0x41 False 50 [Quiet, UdreIrq] port_full)
     = Some (0, [], 0, 1, [0x41, 1, 2, 3, 4, 5, 6, 7], [0])"
  using
    send_full_ring [where c = cfg8 and s = "port_full\<lparr>sreg := 0\<rparr>" and ?E1.0 = "[]"
      and e = Quiet and ?E2.0 = "[]" and timeout = "50" and ch = "0x41"]
    send_full_ring [where c = cfg8 and s = port_full and ?E1.0 = "[Quiet, Quiet]"
      and e = Quiet and ?E2.0 = "[]" and timeout = "3" and ch = "0x41" and drain = False
      and E = "[Quiet, Quiet]"]
    send_full_ring [where c = cfg8 and s = port_full and ?E1.0 = "[Quiet, UdreIrq]"
      and ?E2.0 = "[]" and timeout = "50" and ch = "0x41"]
  by (simp add: port_full_eq run_defs eval_defs)


subsection \<open>Receiving into a buffer\<close>

























subsection \<open>Sending a buffer\<close>

text \<open>What \<open>send\<close> stores is not what \<open>onSend\<close> transmits next: on an empty ring the
  byte goes to slot \<open>head + 1\<close>, and \<open>onSend\<close> puts the old content of slot \<open>tail\<close>
  on the wire.\<close>

lemma send_then_onSend_stale:
  assumes "tx_head s = tx_tail s" "tx_tail s < BTR_USART_TX_BUFF_SIZE c"
    "1 < BTR_USART_TX_BUFF_SIZE c"
  shows "udr_tx (onSend c (send_store ((tx_head s + 1) mod BTR_USART_TX_BUFF_SIZE c) ch s))
         = udr_tx s @ [tx_buff s ! unat (tx_tail s)]"
proof -
  let ?hn = "(tx_head s + 1) mod BTR_USART_TX_BUFF_SIZE c"
  have "?hn \<noteq> tx_tail s" using assms succ_mod_neq by simp
  then have "unat ?hn \<noteq> unat (tx_tail s)" by (simp add: word_unat_eq_iff)
  then show ?thesis
    by (simp add: onSend_def Let_def send_store_fields)
qed


text \<open>
  Claim C1 says that the bytes written to the data register are the bytes enqueued, in
  order. On the code they lag by one slot. On a freshly constructed and opened port,
  \<open>send("hello", 5, true)\<close> returns 0 after \<open>onSend\<close> has run five times (from the
  interrupt, or from \<open>flush\<close> itself when the caller has interrupts disabled) and the
  hardware has reported the transmission complete; the data register has been
  written with a zero byte and then \<open>h\<close>, \<open>e\<close>, \<open>l\<close>, \<open>l\<close>, and \<open>o\<close> is still in
  slot 5 of the ring. A peer that receives these five frames gets status 0 and a
  payload that is not \<open>"hello"\<close>.
\<close>

theorem send_hello_lags:
  "map_option (\<lambda>(rc, E, s). (rc, E, udr_tx s, tx_head s, tx_tail s, tx_buff s))
     (send_buff cfg8 hello 5 True [UdreIrq, UdreIrq, UdreIrq, UdreIrq, UdreIrq, Status 0x60]
        (snd (open_port cfg8 port0)))
     = Some (0, [], [0, 0x68, 0x65, 0x6C, 0x6C], 5, 5, [0, 0x68, 0x65, 0x6C, 0x6C, 0x6F, 0, 0]) \<and>
   map_option (\<lambda>(rc, E, s). (rc, E, udr_tx s, tx_head s, tx_tail s, tx_buff s))
     (send_buff cfg8 hello 5 True [Quiet, Quiet, Quiet, Quiet, Quiet, Status 0x60]
        ((snd (open_port cfg8 port0))\<lparr>sreg := 0\<rparr>))
     = Some (0, [], [0, 0x68, 0x65, 0x6C, 0x6C], 5, 5, [0, 0x68, 0x65, 0x6C, 0x6C, 0x6F, 0, 0]) \<and>
   [0, 0x68, 0x65, 0x6C, 0x6C] \<noteq> hello \<and>
   map_option (\<lambda>(rc, b, E, s). (rc, b)) (peer_recv [0, 0x68, 0x65, 0x6C, 0x6C])
     = Some (0, [0, 0x68, 0x65, 0x6C, 0x6C])"
  by code_simp

subsection \<open>The typed I2C wrappers\<close>

lemma length_be_bytes [simp]: "length (be_bytes n v) = n"
  by (induction n arbitrary: v) simp_all

lemma be_value_snoc: "be_value (bs @ [b]) = be_value bs * 256 + unat b"
  by (simp add: be_value_def)

lemma be_value_be_bytes: "be_value (be_bytes n v) = v mod 256 ^ n"
proof (induction n arbitrary: v)
  case 0
  then show ?case by (simp add: be_value_def)
next
  case (Suc n)
  have "unat (of_nat (v mod 256) :: u8) = v mod 256"
    by (simp add: unat_of_nat)
  then have "be_value (be_bytes (Suc n) v) = (v div 256) mod 256 ^ n * 256 + v mod 256"
    by (simp add: be_value_snoc Suc.IH)
  also have "\<dots> = v mod 256 ^ Suc n"
    by (simp add: mod_mult2_eq mult.commute)
  finally show ?case .
qed

lemma wire_bytes:
  "(if n > 1 \<and> le then swap (object_bytes le n v) else object_bytes le n v) = be_bytes n v"
proof (cases "n > 1")
  case True
  then show ?thesis by (simp add: object_bytes_def swap_def)
next
  case False
  then have "length (be_bytes n v) \<le> 1" by simp
  then have "rev (be_bytes n v) = be_bytes n v"
    by (cases "be_bytes n v") (simp_all)
  then show ?thesis using False by (simp add: object_bytes_def)
qed

lemma to_int_wide:
  assumes "32 \<le> w"
  shows "to_uint32 (to_int w st) = st"
  unfolding to_int_def to_uint32_def
  by (rule bit_word_eqI) (use assms in \<open>auto simp: bit_simps bit_uint_iff\<close>)


text \<open>
  Claim C8, as the code has it. \<open>write<T>\<close> converts its by-value argument to wire
  order (most significant byte first) whatever the host byte order, swapping exactly
  when the host is little-endian and \<open>sizeof(T) > 1\<close>, and hands these \<open>sizeof(T)\<close>
  bytes to the buffer write on the unchanged device: the scratch buffer is not
  involved. \<open>read<T>\<close> has the buffer read fill the scratch buffer, returns its status
  (as it comes back from the \<open>int\<close>) and, when \<open>is_ok\<close> holds of it, decodes the value
  from the scratch buffer, most significant byte first. Decoding the bytes of a value
  gives the value back.
\<close>

theorem typed_wrappers:
  "write_T p n addr reg v d = write_bytes p addr reg (be_bytes n v) n d \<and>
   (read_bytes p addr reg n d = (st, bs, d1) \<and> length bs = n \<longrightarrow>
      read_T p n addr reg val d =
        (to_uint32 (to_int (int_bits p) st),
         (if is_ok p (to_uint32 (to_int (int_bits p) st)) then be_value bs else val),
         d1\<lparr>i2c_buff := bs @ drop n (i2c_buff d1)\<rparr>)) \<and>
   be_value (be_bytes n v) = v mod 256 ^ n"
proof (intro conjI impI)
  show "write_T p n addr reg v d = write_bytes p addr reg (be_bytes n v) n d"
    unfolding write_T_def Let_def by (simp only: wire_bytes)
  show "be_value (be_bytes n v) = v mod 256 ^ n"
    by (rule be_value_be_bytes)
  assume a: "read_bytes p addr reg n d = (st, bs, d1) \<and> length bs = n"
  then show "read_T p n addr reg val d =
        (to_uint32 (to_int (int_bits p) st),
         (if is_ok p (to_uint32 (to_int (int_bits p) st)) then be_value bs else val),
         d1\<lparr>i2c_buff := bs @ drop n (i2c_buff d1)\<rparr>)"
    by (simp add: read_T_def Let_def decodeFixedInt_def)
qed

theorem typed_wrappers_witness:
  "read_bytes stm32 0x68 0x3B 2 dev0 = (0, [0x12, 0x34], dev0) \<and>
   read_T stm32 2 0x68 0x3B 0 dev0 = (0, 0x1234, dev0\<lparr>i2c_buff := [0x12, 0x34, 0, 0, 0, 0, 0, 0]\<rparr>) \<and>
   write_T stm32 2 0x68 0x3B 0x1234 dev0 = write_bytes stm32 0x68 0x3B [0x12, 0x34] 2 dev0"
proof -
  have rb: "read_bytes stm32 0x68 0x3B 2 dev0 = (0, [0x12, 0x34], dev0)"
    by code_simp
  have "read_T stm32 2 0x68 0x3B 0 dev0 =
        (to_uint32 (to_int (int_bits stm32) 0),
         (if is_ok stm32 (to_uint32 (to_int (int_bits stm32) 0)) then be_value [0x12, 0x34] else 0),
         dev0\<lparr>i2c_buff := [0x12, 0x34] @ drop 2 (i2c_buff dev0)\<rparr>)"
    using typed_wrappers [of stm32 2 "0x68" "0x3B" _ dev0 0 "[0x12, 0x34]" dev0 0, THEN conjunct2, THEN conjunct1] rb
    by simp
  moreover have "to_uint32 (to_int (int_bits stm32) 0) = 0" "is_ok stm32 0"
    "be_value [0x12, 0x34] = 0x1234" "[0x12, 0x34] @ drop 2 (i2c_buff dev0) = [0x12, 0x34, 0, 0, 0, 0, 0, 0]"
    by code_simp+
  ultimately have rd: "read_T stm32 2 0x68 0x3B 0 dev0
      = (0, 0x1234, dev0\<lparr>i2c_buff := [0x12, 0x34, 0, 0, 0, 0, 0, 0]\<rparr>)"
    by simp
  have wr: "write_T stm32 2 0x68 0x3B 0x1234 dev0 = write_bytes stm32 0x68 0x3B [0x12, 0x34] 2 dev0"
    by code_simp
  show ?thesis using rb rd wr by simp
qed

text \<open>The claim as stated fails for \<open>write<T>\<close>: the two bytes of \<open>0x1234\<close> reach the
  buffer write, and the scratch buffer still holds what it held before.\<close>

theorem write_T_scratch_counterexample:
  "write_T avr16 2 0x50 0x10 0x1234 dev0 = write_bytes avr16 0x50 0x10 [0x12, 0x34] 2 dev0 \<and>
   i2c_buff (snd (write_T avr16 2 0x50 0x10 0x1234 dev0)) = [0xAB, 0, 0, 0, 0, 0, 0, 0]"
  by code_simp

text \<open>Where \<open>int\<close> has at least 32 bits the status survives the detour through
  \<open>int rc\<close>: \<open>read<T>\<close> returns it unchanged and leaves \<open>*val\<close> alone on an error.\<close>

lemma read_T_wide_int:
  assumes "32 \<le> int_bits p" "read_bytes p addr reg n d = (st, bs, d1)"
  shows "fst (read_T p n addr reg val d) = st"
    and "\<not> is_ok p st \<Longrightarrow> fst (snd (read_T p n addr reg val d)) = val"
  using assms by (simp_all add: read_T_def Let_def to_int_wide)

text \<open>
  Claim C9 says that \<open>read<T>\<close> returns an error status unchanged and leaves
  \<open>*val\<close> untouched. With the 16-bit \<open>int\<close> of AVR, \<open>int rc\<close> keeps only the low half
  of the status: the buffer read reports \<open>0x00010000\<close>, which is not OK, and
  \<open>read<uint8_t>\<close> returns 0 and overwrites the \<open>0x55\<close> in \<open>*val\<close> with the stale
  byte \<open>0xAB\<close> of the scratch buffer.
\<close>

theorem read_T_int16_truncates:
  "read_bytes avr16 0x50 0x00 1 dev0 = (0x00010000, [], dev0) \<and>
   \<not> is_ok avr16 0x00010000 \<and>
   read_T avr16 1 0x50 0x00 0x55 dev0 = (0, 0xAB, dev0)"
  by code_simp


end
